theory Spec2Isabelle
  imports Main
begin

section \<open>Entities and the generational arena (class SlotMap)\<close>

text \<open>
  An entity is the pair \<open>[Generation, Idx]\<close> of the source. Both components are
  JavaScript numbers there, that is doubles; the model takes the generations to be
  the integers and the indices to be the natural numbers, as the data model of the
  specification has them, and writes out below what the double arithmetic and the
  array of JavaScript do with large ones.
\<close>

type_synonym generation = int
type_synonym idx = nat
type_synonym entity = "generation \<times> idx"

text \<open>
  The methods return \<open>null | C\<close>. The type parameter \<open>C\<close> may admit \<open>null\<close> itself, so
  a component and a result are the same kind of value: \<open>None\<close> is \<open>null\<close>, \<open>Some x\<close> is
  any other value.
\<close>

type_synonym 'c nullable = "'c option"

text \<open>
  The class \<open>SlotMap\<close> has one private field, the array \<open>store\<close> of pairs
  \<open>[Generation, C]\<close>. A map is identified with that array; every method takes it and,
  when it mutates, returns the new one.
\<close>

type_synonym 'c slot_store = "(generation \<times> 'c nullable) list"

text \<open>
  The remainder operator \<open>%\<close> of JavaScript truncates towards zero: the result has the
  sign of the dividend.
\<close>

definition js_rem :: "int \<Rightarrow> int \<Rightarrow> int" where
  "js_rem a b = sgn a * (\<bar>a\<bar> mod \<bar>b\<bar>)"

text \<open>
  The statement \<open>slot[0] += 1\<close> on a double with an integer value. The sum is exact
  while its magnitude is at most \<open>2^53\<close>. Between \<open>2^53\<close> and \<open>2^54\<close> only the even
  integers are doubles, \<open>g + 1\<close> lies halfway between the doubles \<open>g\<close> and \<open>g + 2\<close>, and
  the tie goes to the one with the even significand, which is the multiple of 4: so
  \<open>2^53 + 1\<close> gives \<open>2^53\<close> again. From \<open>2^54\<close> on the doubles are at least 4 apart and
  the sum rounds back to \<open>g\<close>. An odd integer of magnitude above \<open>2^53\<close> is not a double;
  the function adds 1 there.
\<close>

definition js_add1 :: "int \<Rightarrow> int" where
  "js_add1 g =
     (if odd g \<or> \<bar>g + 1\<bar> \<le> 2 ^ 53 then g + 1
      else if \<bar>g\<bar> < 2 ^ 54 then (if 4 dvd g then g else g + 2)
      else g)"

text \<open>
  \<open>get\<close>: an index outside the array reads \<open>undefined\<close>, which is falsy. The result is
  the stored component, \<open>null\<close> when that is \<open>null\<close>.
\<close>

definition slotmap_get :: "'c slot_store \<Rightarrow> entity \<Rightarrow> 'c nullable" where
  "slotmap_get store entity =
     (if snd entity < length store
      then (let slot = store ! snd entity
            in if fst entity = fst slot then snd slot else None)
      else None)"

text \<open>
  \<open>insert\<close>: the loop over the slots, with its counter \<open>idx\<close>. It either leaves the
  method with the entity of the slot it recycled (\<open>Inr\<close>, with the slots as mutated) or
  runs to the end of the array (\<open>Inl\<close>, with the final value of \<open>idx\<close>).
\<close>

fun insert_loop :: "'c nullable \<Rightarrow> nat \<Rightarrow> 'c slot_store \<Rightarrow> nat + entity \<times> 'c slot_store" where
  "insert_loop comp' idx [] = Inl idx"
| "insert_loop comp' idx (slot # rest) =
     (if js_rem (fst slot) 2 \<noteq> 0
      then Inr ((js_add1 (fst slot), idx), (js_add1 (fst slot), comp') # rest)
      else (case insert_loop comp' (idx + 1) rest of
              Inl n \<Rightarrow> Inl n
            | Inr (e, rest') \<Rightarrow> Inr (e, slot # rest')))"

definition slotmap_insert :: "'c slot_store \<Rightarrow> 'c nullable \<Rightarrow> entity \<times> 'c slot_store" where
  "slotmap_insert store comp' =
     (case insert_loop comp' 0 store of
        Inr r \<Rightarrow> r
      | Inl idx \<Rightarrow> ((0, idx), store @ [(0, comp')]))"

text \<open>
  \<open>remove\<close>: the result is the stored component, so it is \<open>null\<close> both when the entity
  is not valid and when the component removed is \<open>null\<close>.
\<close>

definition slotmap_remove :: "'c slot_store \<Rightarrow> entity \<Rightarrow> 'c nullable \<times> 'c slot_store" where
  "slotmap_remove store entity =
     (if snd entity < length store
      then (let slot = store ! snd entity
            in if fst entity = fst slot
               then (snd slot, store[snd entity := (js_add1 (fst slot), snd slot)])
               else (None, store))
      else (None, store))"

text \<open>
  \<open>iter\<close> is a generator; the model is the list of everything one full traversal
  yields. The generator only reads the store.
\<close>

fun iter_loop :: "nat \<Rightarrow> 'c slot_store \<Rightarrow> (entity \<times> 'c nullable) list" where
  "iter_loop idx [] = []"
| "iter_loop idx (slot # rest) =
     (if js_rem (fst slot) 2 = 0
      then ((fst slot, idx), snd slot) # iter_loop (idx + 1) rest
      else iter_loop (idx + 1) rest)"

definition slotmap_iter :: "'c slot_store \<Rightarrow> (entity \<times> 'c nullable) list" where
  "slotmap_iter store = iter_loop 0 store"



text \<open>
  The public operations as data, to speak about sequences of calls. Only \<open>insert\<close> and
  \<open>remove\<close> change the store.
\<close>

datatype 'c call = Insert "'c nullable" | Get entity | Remove entity | Iter | Len | Is_empty

fun apply_call :: "'c slot_store \<Rightarrow> 'c call \<Rightarrow> 'c slot_store" where
  "apply_call store (Insert comp') = snd (slotmap_insert store comp')"
| "apply_call store (Remove entity) = snd (slotmap_remove store entity)"
| "apply_call store (Get entity) = store"
| "apply_call store Iter = store"
| "apply_call store Len = store"
| "apply_call store Is_empty = store"

definition run :: "'c slot_store \<Rightarrow> 'c call list \<Rightarrow> 'c slot_store" where
  "run store calls = foldl apply_call store calls"


section \<open>The secondary association map (class SecondaryMap)\<close>

text \<open>
  The private field of \<open>SecondaryMap\<close> is an array of type
  \<open>Array<null | [Generation, C]>\<close>. A JavaScript array may have holes, which read as
  \<open>undefined\<close>: an assignment past the end of the array leaves them behind. The three
  kinds of cell are kept apart; \<open>Undefined\<close> and \<open>Null\<close> are the falsy ones.
\<close>

datatype 'c cell = Undefined | Null | Slot generation "'c nullable"

text \<open>
  An array is an object: an integer below \<open>2^32 - 1\<close> is an array index and names an
  element, any other number used as a key names an ordinary property, which does not
  count for the length and which \<open>for ... of\<close> and \<open>fill\<close> never visit. The field is
  therefore the list of the elements together with the properties kept under larger
  keys.
\<close>

record 'c secondary_store =
  elems :: "'c cell list"
  props :: "nat \<rightharpoonup> 'c cell"

definition is_array_index :: "nat \<Rightarrow> bool" where
  "is_array_index i \<longleftrightarrow> i < 2 ^ 32 - 1"

text \<open>
  \<open>Array.prototype.fill(value, start, end)\<close> for non-negative arguments: both bounds are
  clamped to the length and the elements from \<open>start\<close> up to, not including, \<open>end\<close>
  are overwritten. The length never changes.
\<close>

definition array_fill :: "'c secondary_store \<Rightarrow> 'c cell \<Rightarrow> nat \<Rightarrow> nat \<Rightarrow> 'c secondary_store" where
  "array_fill a v start fin =
     a\<lparr>elems :=
         map (\<lambda>k. if min start (length (elems a)) \<le> k \<and> k < min fin (length (elems a))
                  then v else elems a ! k)
           [0..<length (elems a)]\<rparr>"

text \<open>
  The assignment \<open>store[i] = v\<close>. For an array index: inside the array it overwrites; at
  or past the end JavaScript extends the array, and the elements between the old end
  and \<open>i\<close> are holes. For any other key it sets the property and the elements stay as
  they are.
\<close>

definition array_set :: "'c secondary_store \<Rightarrow> nat \<Rightarrow> 'c cell \<Rightarrow> 'c secondary_store" where
  "array_set a i v =
     (if is_array_index i
      then a\<lparr>elems :=
               (if i < length (elems a) then (elems a)[i := v]
                else elems a @ replicate (i - length (elems a)) Undefined @ [v])\<rparr>
      else a\<lparr>props := (props a)(i \<mapsto> v)\<rparr>)"

text \<open>
  The read \<open>store[i]\<close>: what is not there reads as \<open>undefined\<close>, be it an element past
  the end or a property never set.
\<close>

definition elem_at :: "'c cell list \<Rightarrow> nat \<Rightarrow> 'c cell" where
  "elem_at xs i = (if i < length xs then xs ! i else Undefined)"

definition array_get :: "'c secondary_store \<Rightarrow> nat \<Rightarrow> 'c cell" where
  "array_get a i =
     (if is_array_index i then elem_at (elems a) i
      else (case props a i of None \<Rightarrow> Undefined | Some c \<Rightarrow> c))"

definition secondary_insert :: "'c secondary_store \<Rightarrow> entity \<Rightarrow> 'c nullable \<Rightarrow> 'c secondary_store" where
  "secondary_insert store entity comp' =
     (let len = length (elems store);
          store1 = (if len \<ge> snd entity then array_fill store Null len (snd entity) else store)
      in array_set store1 (snd entity) (Slot (fst entity) comp'))"

definition secondary_get :: "'c secondary_store \<Rightarrow> entity \<Rightarrow> 'c nullable" where
  "secondary_get store entity =
     (case array_get store (snd entity) of
        Slot g c \<Rightarrow> if fst entity = g then c else None
      | _ \<Rightarrow> None)"

definition secondary_remove :: "'c secondary_store \<Rightarrow> entity \<Rightarrow> 'c nullable \<times> 'c secondary_store" where
  "secondary_remove store entity =
     (case array_get store (snd entity) of
        Slot g c \<Rightarrow>
          if fst entity = g then (c, array_set store (snd entity) Null)
          else (None, store)
      | _ \<Rightarrow> (None, store))"

text \<open>\<open>iter\<close>: the loop \<open>for (const slot of this.store)\<close> visits the elements, holes too.\<close>

fun secondary_iter_loop :: "nat \<Rightarrow> 'c cell list \<Rightarrow> (entity \<times> 'c nullable) list" where
  "secondary_iter_loop idx [] = []"
| "secondary_iter_loop idx (Slot g c # rest) = ((g, idx), c) # secondary_iter_loop (idx + 1) rest"
| "secondary_iter_loop idx (_ # rest) = secondary_iter_loop (idx + 1) rest"

definition secondary_iter :: "'c secondary_store \<Rightarrow> (entity \<times> 'c nullable) list" where
  "secondary_iter store = secondary_iter_loop 0 (elems store)"

definition secondary_len :: "'c secondary_store \<Rightarrow> nat" where
  "secondary_len store = fold (\<lambda>_ len. len + 1) (secondary_iter store) 0"


text \<open>
  The cells that the tests \<open>if (slot)\<close> and \<open>slot && ...\<close> of the source let through:
  an array is truthy, \<open>null\<close> and \<open>undefined\<close> are not. The proofs count cells with it.
\<close>

fun truthy :: "'c cell \<Rightarrow> bool" where
  "truthy (Slot g c) = True"
| "truthy _ = False"

section \<open>Basic facts\<close>

lemma js_rem_2_odd: "js_rem g 2 \<noteq> 0 \<longleftrightarrow> odd g"
  unfolding js_rem_def sgn_if by presburger

lemma js_rem_2_even: "js_rem g 2 = 0 \<longleftrightarrow> even g"
  using js_rem_2_odd [of g] by blast

subsection \<open>Adding 1 to a generation\<close>

lemma js_add1_odd: "odd g \<Longrightarrow> js_add1 g = g + 1"
  by (simp add: js_add1_def)

lemma js_add1_ge: "g \<le> js_add1 g"
  by (simp add: js_add1_def)

lemma js_add1_exact: "- (2 ^ 53) \<le> g \<Longrightarrow> g < 2 ^ 53 \<Longrightarrow> js_add1 g = g + 1"
proof -
  assume "- (2 ^ 53) \<le> g" and "g < 2 ^ 53"
  then have "\<bar>g + 1\<bar> \<le> 2 ^ 53" by simp
  then show ?thesis by (simp only: js_add1_def simp_thms if_True)
qed

lemma js_add1_stuck: "js_add1 (2 ^ 53) = 2 ^ 53"
  by (simp add: js_add1_def)

subsection \<open>The loop of insert\<close>

lemma insert_loop_full:
  "\<forall>s \<in> set xs. even (fst s) \<Longrightarrow> insert_loop c k xs = Inl (k + length xs)"
  by (induction xs arbitrary: k) (simp_all add: js_rem_2_odd)

lemma insert_loop_vacant:
  "i < length xs \<Longrightarrow> odd (fst (xs ! i)) \<Longrightarrow> \<forall>j<i. even (fst (xs ! j)) \<Longrightarrow>
   insert_loop c k xs = Inr ((fst (xs ! i) + 1, k + i), xs[i := (fst (xs ! i) + 1, c)])"
proof (induction xs arbitrary: k i)
  case Nil
  then show ?case by simp
next
  case (Cons s xs)
  show ?case
  proof (cases i)
    case 0
    with Cons.prems show ?thesis by (simp add: js_rem_2_odd js_add1_odd)
  next
    case (Suc i')
    from Cons.prems Suc have ev: "even (fst s)" by auto
    from Cons.prems Suc have "i' < length xs" "odd (fst (xs ! i'))" by auto
    moreover from Cons.prems Suc have "\<forall>j<i'. even (fst (xs ! j))" by auto
    ultimately have "insert_loop c (k + 1) xs =
        Inr ((fst (xs ! i') + 1, (k + 1) + i'), xs[i' := (fst (xs ! i') + 1, c)])"
      by (rule Cons.IH)
    with ev Suc show ?thesis by (simp add: js_rem_2_odd)
  qed
qed

lemma first_vacant_exists:
  "\<exists>s \<in> set xs. odd (fst s) \<Longrightarrow>
   \<exists>i<length xs. odd (fst (xs ! i)) \<and> (\<forall>j<i. even (fst (xs ! j)))"
proof -
  assume "\<exists>s \<in> set xs. odd (fst s)"
  then obtain n where n: "n < length xs" "odd (fst (xs ! n))"
    by (auto simp: in_set_conv_nth)
  define i where "i = (LEAST n. n < length xs \<and> odd (fst (xs ! n)))"
  have "i < length xs \<and> odd (fst (xs ! i))"
    unfolding i_def by (rule LeastI [of _ n]) (simp add: n)
  moreover have "\<forall>j<i. even (fst (xs ! j))"
  proof (intro allI impI)
    fix j assume "j < i"
    then have "\<not> (j < length xs \<and> odd (fst (xs ! j)))"
      unfolding i_def by (rule not_less_Least)
    with \<open>j < i\<close> calculation show "even (fst (xs ! j))" by auto
  qed
  ultimately show ?thesis by blast
qed

lemma slotmap_insert_cases:
  obtains (recycle) i where "i < length st" "odd (fst (st ! i))" "\<forall>j<i. even (fst (st ! j))"
      "slotmap_insert st c = ((fst (st ! i) + 1, i), st[i := (fst (st ! i) + 1, c)])"
  | (append) "\<forall>s \<in> set st. even (fst s)"
      "slotmap_insert st c = ((0, length st), st @ [(0, c)])"
proof (cases "\<exists>s \<in> set st. odd (fst s)")
  case True
  then obtain i where i: "i < length st" "odd (fst (st ! i))" "\<forall>j<i. even (fst (st ! j))"
    using first_vacant_exists by blast
  then have "slotmap_insert st c = ((fst (st ! i) + 1, i), st[i := (fst (st ! i) + 1, c)])"
    by (simp add: slotmap_insert_def insert_loop_vacant [where k = 0])
  with i show thesis by (rule recycle)
next
  case False
  then have ev: "\<forall>s \<in> set st. even (fst s)" by blast
  then have "slotmap_insert st c = ((0, length st), st @ [(0, c)])"
    by (simp add: slotmap_insert_def insert_loop_full)
  with ev show thesis by (rule append)
qed


subsection \<open>Generations never decrease\<close>








subsection \<open>What insert and remove leave behind\<close>

lemma slotmap_insert_slot:
  assumes "slotmap_insert st c = (e, st')"
  shows "snd e < length st' \<and> st' ! snd e = (fst e, c)"
proof (cases st c rule: slotmap_insert_cases)
  case (recycle i)
  with assms show ?thesis by auto
next
  case append
  with assms show ?thesis by auto
qed

lemma slotmap_remove_Some:
  assumes "slotmap_remove st e = (Some x, st')"
  shows "snd e < length st \<and> st ! snd e = (fst e, Some x)
       \<and> st' = st[snd e := (js_add1 (fst e), Some x)]"
  using assms by (auto simp: slotmap_remove_def Let_def prod_eq_iff split: if_splits)


subsection \<open>What a traversal yields\<close>

lemma iter_loop_eq:
  "iter_loop k xs =
     map (\<lambda>i. ((fst (xs ! i), k + i), snd (xs ! i)))
       (filter (\<lambda>i. even (fst (xs ! i))) [0..<length xs])"
proof (induction xs arbitrary: k)
  case Nil
  then show ?case by simp
next
  case (Cons s xs)
  have upt: "[0..<length (s # xs)] = 0 # map Suc [0..<length xs]"
    by (simp add: upt_conv_Cons map_Suc_upt del: upt_Suc)
  show ?case
    unfolding upt by (simp add: Cons.IH js_rem_2_even filter_map o_def)
qed

lemma slotmap_iter_eq:
  "slotmap_iter st =
     map (\<lambda>i. ((fst (st ! i), i), snd (st ! i)))
       (filter (\<lambda>i. even (fst (st ! i))) [0..<length st])"
  by (simp add: slotmap_iter_def iter_loop_eq)

lemma set_slotmap_iter:
  "set (slotmap_iter st) = {((fst (st ! i), i), snd (st ! i)) | i. i < length st \<and> even (fst (st ! i))}"
  by (auto simp: slotmap_iter_eq)

lemma fold_count: "fold (\<lambda>_ len. len + 1) xs (n::nat) = n + length xs"
  by (induction xs arbitrary: n) simp_all

subsection \<open>Generations of a store built by calls are not negative\<close>

lemma nonneg_insert:
  assumes "\<forall>i<length st. 0 \<le> fst (st ! i)"
  shows "\<forall>i<length (snd (slotmap_insert st c)). 0 \<le> fst (snd (slotmap_insert st c) ! i)"
proof (cases st c rule: slotmap_insert_cases)
  case (recycle i)
  from assms recycle(1) have "0 \<le> fst (st ! i)" by simp
  with assms recycle(1,4) show ?thesis
    by (auto simp: nth_list_update)
next
  case append
  with assms show ?thesis by (simp add: nth_append)
qed

lemma nonneg_remove:
  assumes "\<forall>i<length st. 0 \<le> fst (st ! i)"
  shows "\<forall>i<length (snd (slotmap_remove st e)). 0 \<le> fst (snd (slotmap_remove st e) ! i)"
proof (cases "snd e < length st \<and> fst e = fst (st ! snd e)")
  case True
  with assms have "0 \<le> fst (st ! snd e)" by simp
  then have "0 \<le> js_add1 (fst (st ! snd e))"
    using js_add1_ge [of "fst (st ! snd e)"] by simp
  with assms True show ?thesis
    by (auto simp: slotmap_remove_def Let_def nth_list_update)
next
  case False
  with assms show ?thesis by (auto simp: slotmap_remove_def Let_def)
qed

lemma nonneg_apply_call:
  "\<forall>i<length st. 0 \<le> fst (st ! i) \<Longrightarrow>
   \<forall>i<length (apply_call st call). 0 \<le> fst (apply_call st call ! i)"
  by (cases call) (simp_all add: nonneg_insert nonneg_remove)

lemma nonneg_run:
  "\<forall>i<length st. 0 \<le> fst (st ! i) \<Longrightarrow>
   \<forall>i<length (run st calls). 0 \<le> fst (run st calls ! i)"
proof (induction calls arbitrary: st)
  case Nil
  then show ?case by (simp add: run_def)
next
  case (Cons call calls)
  from Cons.prems have "\<forall>i<length (apply_call st call). 0 \<le> fst (apply_call st call ! i)"
    by (rule nonneg_apply_call)
  then have "\<forall>i<length (run (apply_call st call) calls). 0 \<le> fst (run (apply_call st call) calls ! i)"
    by (rule Cons.IH)
  then show ?case by (simp add: run_def)
qed

subsection \<open>The array of the secondary map\<close>

lemma array_fill_from_length: "array_fill a v (length (elems a)) fin = a"
proof -
  have "map (\<lambda>k. if min (length (elems a)) (length (elems a)) \<le> k \<and> k < min fin (length (elems a))
                  then v else elems a ! k) [0..<length (elems a)] = elems a"
    by (rule nth_equalityI) simp_all
  then show ?thesis by (simp add: array_fill_def)
qed

lemma secondary_insert_eq:
  "secondary_insert st e w = array_set st (snd e) (Slot (fst e) w)"
  by (simp add: secondary_insert_def Let_def array_fill_from_length)

lemma elems_array_set:
  "elems (array_set a i v) =
     (if is_array_index i
      then (if i < length (elems a) then (elems a)[i := v]
            else elems a @ replicate (i - length (elems a)) Undefined @ [v])
      else elems a)"
  by (simp add: array_set_def)

lemma elem_at_array_set:
  "j \<noteq> i \<Longrightarrow> elem_at (elems (array_set a i v)) j = elem_at (elems a) j"
  by (auto simp: elems_array_set elem_at_def nth_append)

lemma array_get_array_set:
  "array_get (array_set a i v) j = (if j = i then v else array_get a j)"
proof (cases "j = i")
  case True
  then show ?thesis
    by (auto simp: array_get_def array_set_def elem_at_def nth_append)
next
  case False
  then have "elem_at (elems (array_set a i v)) j = elem_at (elems a) j"
    by (rule elem_at_array_set)
  moreover from False have "props (array_set a i v) j = props a j"
    by (simp add: array_set_def)
  ultimately show ?thesis using False by (simp add: array_get_def)
qed



lemma secondary_iter_loop_at:
  "filter (\<lambda>p. snd (fst p) = j) (secondary_iter_loop k xs) =
     (if k \<le> j then (case elem_at xs (j - k) of Slot g c \<Rightarrow> [((g, j), c)] | _ \<Rightarrow> []) else [])"
proof (induction xs arbitrary: k)
  case Nil
  then show ?case by (simp add: elem_at_def)
next
  case (Cons s xs)
  show ?case
  proof (cases "k < j")
    case True
    then have "j - k = Suc (j - Suc k)" by simp
    then have "elem_at (s # xs) (j - k) = elem_at xs (j - Suc k)"
      by (simp add: elem_at_def)
    with True show ?thesis by (cases s) (simp_all add: Cons.IH)
  next
    case False
    then show ?thesis by (cases s) (simp_all add: Cons.IH elem_at_def)
  qed
qed

lemma secondary_iter_at:
  "filter (\<lambda>p. snd (fst p) = j) (secondary_iter st) =
     (case elem_at (elems st) j of Slot g c \<Rightarrow> [((g, j), c)] | _ \<Rightarrow> [])"
  by (simp add: secondary_iter_def secondary_iter_loop_at)

lemma length_secondary_iter_loop:
  "length (secondary_iter_loop k xs) = length (filter truthy xs)"
proof (induction xs arbitrary: k)
  case Nil
  then show ?case by simp
next
  case (Cons s xs)
  then show ?case by (cases s) simp_all
qed

lemma secondary_len_eq: "secondary_len st = length (filter truthy (elems st))"
  unfolding secondary_len_def fold_count secondary_iter_def
  by (simp add: length_secondary_iter_loop)

lemma truthy_count_update:
  "i < length xs \<Longrightarrow>
   length (filter truthy (xs[i := Slot g w])) =
     length (filter truthy xs) + (if truthy (xs ! i) then 0 else 1)"
proof (induction xs arbitrary: i)
  case Nil
  then show ?case by simp
next
  case (Cons s xs)
  then show ?case by (cases i) simp_all
qed

lemma truthy_count_array_set:
  "length (filter truthy (elems (array_set a i (Slot g w)))) =
     length (filter truthy (elems a))
       + (if is_array_index i \<and> \<not> truthy (elem_at (elems a) i) then 1 else 0)"
  by (simp add: elems_array_set elem_at_def truthy_count_update)

section \<open>The claims\<close>

text \<open>
  C2 (round trip). In every state of the arena, so in every reachable one, and for
  every value \<open>v\<close>, \<open>null\<close> included: \<open>get\<close> on the entity that \<open>insert v\<close> has just
  returned gives \<open>v\<close>.
\<close>

theorem insert_get_round_trip:
  "slotmap_get (snd (slotmap_insert st v)) (fst (slotmap_insert st v)) = v"
proof -
  obtain e st' where r: "slotmap_insert st v = (e, st')" by (cases "slotmap_insert st v")
  from slotmap_insert_slot [OF r] show ?thesis
    by (simp add: r slotmap_get_def)
qed






text \<open>
  C5 (insert). In every state, \<open>insert v\<close> takes the first slot, counting from index 0,
  whose generation is odd (vacant): it adds 1 to that generation, stores \<open>v\<close> there and
  returns the new generation with that index; all other slots are as before. If no
  slot is vacant, it appends the slot \<open>(0, v)\<close> and returns \<open>(0, i)\<close> for the new last
  index \<open>i\<close>.
\<close>

theorem insert_first_vacant:
  "(\<forall>i. i < length st \<and> odd (fst (st ! i)) \<and> (\<forall>j<i. even (fst (st ! j))) \<longrightarrow>
        slotmap_insert st v = ((fst (st ! i) + 1, i), st[i := (fst (st ! i) + 1, v)]))
   \<and> ((\<forall>i<length st. even (fst (st ! i))) \<longrightarrow>
        slotmap_insert st v = ((0, length st), st @ [(0, v)]))"
proof (intro conjI allI impI)
  fix i
  assume "i < length st \<and> odd (fst (st ! i)) \<and> (\<forall>j<i. even (fst (st ! j)))"
  then have "i < length st" and "odd (fst (st ! i))" and "\<forall>j<i. even (fst (st ! j))"
    by simp_all
  then have "insert_loop v 0 st = Inr ((fst (st ! i) + 1, 0 + i), st[i := (fst (st ! i) + 1, v)])"
    by (rule insert_loop_vacant)
  then show "slotmap_insert st v = ((fst (st ! i) + 1, i), st[i := (fst (st ! i) + 1, v)])"
    by (simp add: slotmap_insert_def)
next
  assume "\<forall>i<length st. even (fst (st ! i))"
  then have "\<forall>s \<in> set st. even (fst s)" by (metis in_set_conv_nth)
  then show "slotmap_insert st v = ((0, length st), st @ [(0, v)])"
    by (simp add: slotmap_insert_def insert_loop_full)
qed

theorem insert_first_vacant_witness:
  "slotmap_insert [(0, Some ''A''), (1, Some ''B''), (3, Some ''C'')] (Some ''D'') =
     ((2, 1), [(0, Some ''A''), (2, Some ''D''), (3, Some ''C'')]) \<and>
   slotmap_insert [(0, Some ''A''), (2, Some ''D'')] (Some ''E'') =
     ((0, 2), [(0, Some ''A''), (2, Some ''D''), (0, Some ''E'')])"
proof -
  have "slotmap_insert [(0, Some ''A''), (1, Some ''B''), (3, Some ''C'')] (Some ''D'') =
      ((2, 1), [(0, Some ''A''), (2, Some ''D''), (3, Some ''C'')])"
    using insert_first_vacant [of "[(0, Some ''A''), (1, Some ''B''), (3, Some ''C'')]" "Some ''D''",
        THEN conjunct1, THEN spec, of 1]
    by simp
  moreover have "slotmap_insert [(0, Some ''A''), (2, Some ''D'')] (Some ''E'') =
      ((0, 2), [(0, Some ''A''), (2, Some ''D''), (0, Some ''E'')])"
    using insert_first_vacant [of "[(0, Some ''A''), (2, Some ''D'')]" "Some ''E''", THEN conjunct2]
    by (simp add: less_Suc_eq)
  ultimately show ?thesis by simp
qed

text \<open>
  C6 (validity check), as amended. For every entity and every store: if the index is
  out of bounds or the generation stored there differs from the entity's, \<open>get\<close> and
  \<open>remove\<close> are absent and \<open>remove\<close> leaves the store as it is. Otherwise \<open>get\<close> returns
  the stored component and \<open>remove\<close> returns it too; so each of them is absent exactly
  when the index is out of bounds, the generations differ or the stored component is
  \<open>null\<close>. A \<open>remove\<close> on a valid entity adds exactly 1 to that slot's generation when
  the generation lies from \<open>-2^53\<close> up to, not including, \<open>2^53\<close>, and changes nothing
  else; at the generation \<open>2^53\<close> it leaves the whole store as it is.
\<close>

theorem get_remove_validity:
  "(slotmap_get st e = None \<longleftrightarrow>
      length st \<le> snd e \<or> fst (st ! snd e) \<noteq> fst e \<or> snd (st ! snd e) = None)
   \<and> (fst (slotmap_remove st e) = None \<longleftrightarrow>
      length st \<le> snd e \<or> fst (st ! snd e) \<noteq> fst e \<or> snd (st ! snd e) = None)
   \<and> (snd e < length st \<and> fst (st ! snd e) = fst e \<longrightarrow>
        slotmap_get st e = snd (st ! snd e)
      \<and> fst (slotmap_remove st e) = snd (st ! snd e)
      \<and> (- (2 ^ 53) \<le> fst e \<and> fst e < 2 ^ 53 \<longrightarrow>
           snd (slotmap_remove st e) = st[snd e := (fst e + 1, snd (st ! snd e))])
      \<and> (fst e = 2 ^ 53 \<longrightarrow> snd (slotmap_remove st e) = st))
   \<and> (length st \<le> snd e \<or> fst (st ! snd e) \<noteq> fst e \<longrightarrow>
        slotmap_get st e = None \<and> slotmap_remove st e = (None, st))"
proof (cases "snd e < length st \<and> fst (st ! snd e) = fst e")
  case True
  then have i: "snd e < length st" and g: "fst (st ! snd e) = fst e" by simp_all
  have get: "slotmap_get st e = snd (st ! snd e)"
    using i g by (simp add: slotmap_get_def)
  have rem: "slotmap_remove st e =
      (snd (st ! snd e), st[snd e := (js_add1 (fst e), snd (st ! snd e))])"
    using i g by (simp add: slotmap_remove_def Let_def)
  have inc: "snd (slotmap_remove st e) = st[snd e := (fst e + 1, snd (st ! snd e))]"
    if "- (2 ^ 53) \<le> fst e \<and> fst e < 2 ^ 53"
    using that by (simp add: rem js_add1_exact)
  have stuck: "snd (slotmap_remove st e) = st" if "fst e = 2 ^ 53"
  proof -
    from that have "js_add1 (fst e) = fst (st ! snd e)"
      using g by (simp only: js_add1_stuck)
    then show ?thesis by (simp add: rem)
  qed
  from True get rem inc stuck show ?thesis by auto
next
  case False
  then have "slotmap_get st e = None" and "slotmap_remove st e = (None, st)"
    by (auto simp: slotmap_get_def slotmap_remove_def Let_def)
  with False show ?thesis by auto
qed

theorem get_remove_validity_witness:
  "slotmap_remove [(0, Some ''A''), (2, Some ''D'')] (2, 1) =
     (Some ''D'', [(0, Some ''A''), (3, Some ''D'')]) \<and>
   slotmap_get [(0, Some ''A''), (2, Some ''D'')] (2, 1) = Some ''D'' \<and>
   slotmap_get [(0, Some ''A''), (2, Some ''D'')] (0, 1) = None \<and>
   slotmap_remove [(0, Some ''A''), (2, Some ''D'')] (0, 1) = (None, [(0, Some ''A''), (2, Some ''D'')]) \<and>
   slotmap_get [(0, Some ''A''), (2, Some ''D'')] (0, 2) = None \<and>
   snd (slotmap_remove [(2 ^ 53, Some ''A'')] (2 ^ 53, 0)) = [(2 ^ 53, Some ''A'')]"
proof -
  note ok = get_remove_validity [of "[(0, Some ''A''), (2, Some ''D'')]" "(2, 1)"]
  note stale = get_remove_validity [of "[(0, Some ''A''), (2, Some ''D'')]" "(0, 1)"]
  note out = get_remove_validity [of "[(0, Some ''A''), (2, Some ''D'')]" "(0, 2)"]
  note top = get_remove_validity [of "[(2 ^ 53, Some ''A'')]" "(2 ^ 53, 0)"]
  have "slotmap_remove [(0, Some ''A''), (2, Some ''D'')] (2, 1) =
      (Some ''D'', [(0, Some ''A''), (3, Some ''D'')])"
    using ok by (simp add: prod_eq_iff)
  moreover have "slotmap_get [(0, Some ''A''), (2, Some ''D'')] (2, 1) = Some ''D''"
    using ok by simp
  moreover have "slotmap_get [(0, Some ''A''), (2, Some ''D'')] (0, 1) = None"
    using stale by simp
  moreover have "slotmap_remove [(0, Some ''A''), (2, Some ''D'')] (0, 1) =
      (None, [(0, Some ''A''), (2, Some ''D'')])"
    using stale by simp
  moreover have "slotmap_get [(0, Some ''A''), (2, Some ''D'')] (0, 2) = None"
    using out by simp
  moreover have "snd (slotmap_remove [(2 ^ 53, Some ''A'')] (2 ^ 53, 0)) = [(2 ^ 53, Some ''A'')]"
    using top by simp
  ultimately show ?thesis by simp
qed

text \<open>
  The claim as stated fails in two ways. A valid entity whose stored component is
  \<open>null\<close> gets \<open>null\<close>, the absent result, from \<open>get\<close> and from \<open>remove\<close>, and that
  \<open>remove\<close> does change the store. And at the generation \<open>2^53\<close> a \<open>remove\<close> that succeeds
  leaves the generation where it is instead of adding 1.
\<close>

theorem get_remove_validity_counterexample:
  "slotmap_get [(0, None :: string option)] (0, 0) = None \<and>
   slotmap_remove [(0, None :: string option)] (0, 0) = (None, [(1, None)]) \<and>
   (0 :: nat) < length [(0 :: int, None :: string option)] \<and>
   fst ([(0 :: int, None :: string option)] ! 0) = 0 \<and>
   slotmap_remove [(2 ^ 53, Some ''A'')] (2 ^ 53, 0) = (Some ''A'', [(2 ^ 53, Some ''A'')]) \<and>
   [(2 ^ 53, Some ''A'')] \<noteq> [(2 ^ 53 + 1 :: int, Some ''A'')]"
  by (simp add: slotmap_get_def slotmap_remove_def js_add1_def)

text \<open>
  C8 (forged entity), as amended. \<open>get\<close> and \<open>remove\<close> compare generations for equality
  and never look at parity. So for a generation \<open>g\<close> from \<open>-2^53\<close> up to \<open>2^53 - 2\<close>: once
  \<open>remove (g, i)\<close> has succeeded, the slot has generation \<open>g + 1\<close>, and on the entity
  \<open>(g + 1, i)\<close>, which no \<open>insert\<close> returned, \<open>get\<close> gives the removed value and \<open>remove\<close>
  succeeds, setting the generation to \<open>g + 2\<close> with the old value still in the slot.
  For an even \<open>g\<close> the slot was skipped by \<open>iter\<close> after the first removal and is
  yielded again, as occupied, after the second.
\<close>

theorem forged_entity_after_remove:
  assumes rem: "slotmap_remove st (g, i) = (Some v, st')"
    and lo: "- (2 ^ 53) \<le> g"
    and hi: "g + 1 < 2 ^ 53"
  shows "fst (st' ! i) = g + 1
       \<and> slotmap_get st' (g + 1, i) = Some v
       \<and> slotmap_remove st' (g + 1, i) = (Some v, st'[i := (g + 2, Some v)])
       \<and> (even g \<longrightarrow>
            ((g + 1, i), Some v) \<notin> set (slotmap_iter st')
          \<and> ((g + 2, i), Some v) \<in> set (slotmap_iter (st'[i := (g + 2, Some v)])))"
proof -
  from lo hi have one: "js_add1 g = g + 1" by (simp add: js_add1_exact)
  from lo hi have "js_add1 (g + 1) = g + 1 + 1" by (intro js_add1_exact) simp_all
  then have two: "js_add1 (g + 1) = g + 2" by simp
  from slotmap_remove_Some [OF rem] one
  have i: "i < length st" and st': "st' = st[i := (g + 1, Some v)]" by simp_all
  then have slot: "i < length st'" "st' ! i = (g + 1, Some v)" by simp_all
  have get: "slotmap_get st' (g + 1, i) = Some v"
    using slot by (simp add: slotmap_get_def)
  have rem2: "slotmap_remove st' (g + 1, i) = (Some v, st'[i := (g + 2, Some v)])"
    using slot by (simp add: slotmap_remove_def two)
  have "((g + 1, i), Some v) \<notin> set (slotmap_iter st')" if "even g"
    using that slot by (auto simp: set_slotmap_iter)
  moreover have "((g + 2, i), Some v) \<in> set (slotmap_iter (st'[i := (g + 2, Some v)]))" if "even g"
  proof -
    let ?s = "st'[i := (g + 2, Some v)]"
    from slot have "i < length ?s" "?s ! i = (g + 2, Some v)" by simp_all
    with that show ?thesis unfolding set_slotmap_iter by force
  qed
  ultimately show ?thesis using slot get rem2 by simp
qed

theorem forged_entity_after_remove_witness:
  "slotmap_remove [(0, Some ''A''), (0, Some ''B'')] (0, 1) =
     (Some ''B'', [(0, Some ''A''), (1, Some ''B'')]) \<and>
   slotmap_get [(0, Some ''A''), (1, Some ''B'')] (1, 1) = Some ''B'' \<and>
   slotmap_remove [(0, Some ''A''), (1, Some ''B'')] (1, 1) =
     (Some ''B'', [(0, Some ''A''), (2, Some ''B'')]) \<and>
   ((2, 1), Some ''B'') \<in> set (slotmap_iter [(0, Some ''A''), (2, Some ''B'')])"
proof -
  have a: "slotmap_remove [(0, Some ''A''), (0, Some ''B'')] (0, 1) =
      (Some ''B'', [(0, Some ''A''), (1, Some ''B'')])"
    by (simp add: slotmap_remove_def js_add1_def)
  have lo: "- (2 ^ 53) \<le> (0 :: int)" by simp
  have hi: "(0 :: int) + 1 < 2 ^ 53" by simp
  from forged_entity_after_remove [OF a lo hi] a show ?thesis by simp
qed

text \<open>
  The claim as stated fails at \<open>g = 2^53\<close>, a generation that \<open>insert\<close> issues on a slot
  at \<open>2^53 - 1\<close>: \<open>remove (2^53, 0)\<close> succeeds and the slot keeps the even generation
  \<open>2^53\<close>, so the entity \<open>(2^53 + 1, 0)\<close> is not accepted by \<open>get\<close> or \<open>remove\<close>.
\<close>

theorem forged_entity_after_remove_counterexample:
  "slotmap_remove [(2 ^ 53, Some ''A'')] (2 ^ 53, 0) = (Some ''A'', [(2 ^ 53, Some ''A'')]) \<and>
   slotmap_get [(2 ^ 53, Some ''A'')] (2 ^ 53 + 1, 0) = None \<and>
   slotmap_remove [(2 ^ 53, Some ''A'')] (2 ^ 53 + 1, 0) = (None, [(2 ^ 53, Some ''A'')])"
  by (simp add: slotmap_get_def slotmap_remove_def js_add1_def)

text \<open>
  C9 (parity invariant). The entity returned by \<open>insert\<close> has an even generation, and so
  has every entity yielded by \<open>iter\<close>, in every store. In every store reached from the
  empty one by public calls, each slot's generation is at least 0; a slot with an even
  generation is yielded by \<open>iter\<close>, with its generation, index and value, and a slot
  with an odd generation is skipped.
\<close>

theorem even_generation_invariant:
  "even (fst (fst (slotmap_insert st v)))
   \<and> (\<forall>p \<in> set (slotmap_iter st). even (fst (fst p)))
   \<and> (\<forall>i<length (run [] calls).
        0 \<le> fst (run [] calls ! i)
      \<and> (even (fst (run [] calls ! i)) \<longrightarrow>
           ((fst (run [] calls ! i), i), snd (run [] calls ! i)) \<in> set (slotmap_iter (run [] calls)))
      \<and> (odd (fst (run [] calls ! i)) \<longrightarrow>
           (\<forall>p \<in> set (slotmap_iter (run [] calls)). snd (fst p) \<noteq> i)))"
proof (intro conjI)
  show "even (fst (fst (slotmap_insert st v)))"
    by (cases st v rule: slotmap_insert_cases) simp_all
  show "\<forall>p \<in> set (slotmap_iter st). even (fst (fst p))"
    by (auto simp: set_slotmap_iter)
  let ?s = "run [] calls"
  have nonneg: "\<forall>i<length ?s. 0 \<le> fst (?s ! i)"
    by (rule nonneg_run) simp
  have yields: "((fst (?s ! i), i), snd (?s ! i)) \<in> set (slotmap_iter ?s)"
    if "i < length ?s" and "even (fst (?s ! i))" for i
    using that unfolding set_slotmap_iter by blast
  have skips: "\<forall>p \<in> set (slotmap_iter ?s). snd (fst p) \<noteq> i"
    if "odd (fst (?s ! i))" for i
    using that by (auto simp: set_slotmap_iter)
  from nonneg yields skips
  show "\<forall>i<length ?s. 0 \<le> fst (?s ! i)
      \<and> (even (fst (?s ! i)) \<longrightarrow> ((fst (?s ! i), i), snd (?s ! i)) \<in> set (slotmap_iter ?s))
      \<and> (odd (fst (?s ! i)) \<longrightarrow> (\<forall>p \<in> set (slotmap_iter ?s). snd (fst p) \<noteq> i))"
    by blast
qed

theorem even_generation_invariant_witness:
  "run [] [Insert (Some ''A''), Insert (Some ''B''), Remove (0, 1)] = [(0, Some ''A''), (1, Some ''B'')] \<and>
   even (fst (fst (slotmap_insert [(0, Some ''A''), (1, Some ''B'')] (Some ''D'')))) \<and>
   0 \<le> fst (run [] [Insert (Some ''A''), Insert (Some ''B''), Remove (0, 1)] ! 1) \<and>
   ((0, 0), Some ''A'') \<in> set (slotmap_iter (run [] [Insert (Some ''A''), Insert (Some ''B''), Remove (0, 1)])) \<and>
   ((1, 1), Some ''B'') \<notin> set (slotmap_iter (run [] [Insert (Some ''A''), Insert (Some ''B''), Remove (0, 1)]))"
proof -
  let ?calls = "[Insert (Some ''A''), Insert (Some ''B''), Remove (0, 1)]"
  let ?s = "[(0, Some ''A''), (1, Some ''B'')] :: string slot_store"
  have r: "run [] ?calls = ?s"
    by (simp add: run_def slotmap_insert_def slotmap_remove_def js_rem_def js_add1_def)
  note t = even_generation_invariant [of ?s "Some ''D''" ?calls]
  from t have "even (fst (fst (slotmap_insert ?s (Some ''D''))))" by blast
  moreover from t have "\<forall>i<length (run [] ?calls).
        0 \<le> fst (run [] ?calls ! i)
      \<and> (even (fst (run [] ?calls ! i)) \<longrightarrow>
           ((fst (run [] ?calls ! i), i), snd (run [] ?calls ! i)) \<in> set (slotmap_iter (run [] ?calls)))
      \<and> (odd (fst (run [] ?calls ! i)) \<longrightarrow>
           (\<forall>p \<in> set (slotmap_iter (run [] ?calls)). snd (fst p) \<noteq> i))"
    by blast
  then have all: "\<forall>i<length ?s.
        0 \<le> fst (?s ! i)
      \<and> (even (fst (?s ! i)) \<longrightarrow> ((fst (?s ! i), i), snd (?s ! i)) \<in> set (slotmap_iter ?s))
      \<and> (odd (fst (?s ! i)) \<longrightarrow> (\<forall>p \<in> set (slotmap_iter ?s). snd (fst p) \<noteq> i))"
    unfolding r .
  from all [THEN spec, of 0] have "((0, 0), Some ''A'') \<in> set (slotmap_iter ?s)" by simp
  moreover from all [THEN spec, of 1] have "((1, 1), Some ''B'') \<notin> set (slotmap_iter ?s)" by force
  moreover from all [THEN spec, of 1] have "0 \<le> fst (?s ! 1)" by simp
  ultimately show ?thesis unfolding r using r by simp
qed

text \<open>
  C4 (secondary insert), as amended. For every entity \<open>e\<close>, value \<open>w\<close> and store,
  \<open>get e\<close> gives \<open>w\<close> after \<open>insert e w\<close>. When the index of \<open>e\<close> is below \<open>2^32 - 1\<close>,
  also when it is at or past the end of the array: the array then reaches up to that
  index and no further than needed, the cell at the index holds the generation of \<open>e\<close>
  with \<open>w\<close> whatever was there before, the cells that existed elsewhere are as they
  were, and the new cells in between are holes. The call of \<open>fill\<close> in the source
  never writes a cell; the array grows by the assignment past its end. An index from
  \<open>2^32 - 1\<close> on is not an array index: the pair is kept as a property of the array
  object and the elements stay as they are.
\<close>

theorem secondary_insert_get:
  "(snd e < 2 ^ 32 - 1 \<longrightarrow>
        length (elems (secondary_insert st e w)) = max (length (elems st)) (snd e + 1)
      \<and> elems (secondary_insert st e w) ! snd e = Slot (fst e) w
      \<and> (\<forall>j<length (elems st). j \<noteq> snd e \<longrightarrow>
           elems (secondary_insert st e w) ! j = elems st ! j)
      \<and> (\<forall>j. length (elems st) \<le> j \<and> j < snd e \<longrightarrow>
           elems (secondary_insert st e w) ! j = Undefined))
   \<and> (2 ^ 32 - 1 \<le> snd e \<longrightarrow> elems (secondary_insert st e w) = elems st)
   \<and> secondary_get (secondary_insert st e w) e = w"
proof (intro conjI impI)
  let ?st' = "secondary_insert st e w"
  show "secondary_get ?st' e = w"
    by (simp add: secondary_get_def secondary_insert_eq array_get_array_set)
  show "elems ?st' = elems st" if "2 ^ 32 - 1 \<le> snd e"
    using that by (simp add: secondary_insert_eq elems_array_set is_array_index_def)
next
  let ?st' = "secondary_insert st e w"
  assume "snd e < 2 ^ 32 - 1"
  then have idx: "is_array_index (snd e)" by (simp add: is_array_index_def)
  show "length (elems ?st') = max (length (elems st)) (snd e + 1)"
    using idx by (simp add: secondary_insert_eq elems_array_set)
  show "elems ?st' ! snd e = Slot (fst e) w"
    using idx by (simp add: secondary_insert_eq elems_array_set nth_append)
  show "\<forall>j<length (elems st). j \<noteq> snd e \<longrightarrow> elems ?st' ! j = elems st ! j"
    using idx by (simp add: secondary_insert_eq elems_array_set nth_append)
  show "\<forall>j. length (elems st) \<le> j \<and> j < snd e \<longrightarrow> elems ?st' ! j = Undefined"
    using idx by (auto simp: secondary_insert_eq elems_array_set nth_append)
qed

theorem secondary_insert_get_witness:
  "elems (secondary_insert \<lparr>elems = [Slot 4 (Some ''y'')], props = Map.empty\<rparr> (0, 3) (Some ''x'')) =
     [Slot 4 (Some ''y''), Undefined, Undefined, Slot 0 (Some ''x'')] \<and>
   secondary_get (secondary_insert \<lparr>elems = [Slot 4 (Some ''y'')], props = Map.empty\<rparr> (0, 3) (Some ''x'')) (0, 3) =
     Some ''x'' \<and>
   elems (secondary_insert \<lparr>elems = [Slot 4 (Some ''y'')], props = Map.empty\<rparr> (0, 3) (Some ''x'')) ! 0 =
     [Slot 4 (Some ''y'')] ! 0 \<and>
   elems (secondary_insert \<lparr>elems = [Slot 4 (Some ''y'')], props = Map.empty\<rparr> (0, 3) (Some ''x'')) ! 2 =
     Undefined \<and>
   elems (secondary_insert \<lparr>elems = [Null, Slot 4 (Some ''y'')], props = Map.empty\<rparr> (7, 1) (Some ''x'')) ! 1 =
     Slot 7 (Some ''x'') \<and>
   elems (secondary_insert \<lparr>elems = [Null], props = Map.empty\<rparr> (7, 2 ^ 32 - 1) (Some ''x'')) = [Null] \<and>
   secondary_get (secondary_insert \<lparr>elems = [Null], props = Map.empty\<rparr> (7, 2 ^ 32 - 1) (Some ''x''))
     (7, 2 ^ 32 - 1) = Some ''x''"
proof -
  let ?st = "\<lparr>elems = [Slot 4 (Some ''y'')], props = Map.empty\<rparr> :: string secondary_store"
  let ?st' = "secondary_insert ?st (0, 3) (Some ''x'')"
  note t = secondary_insert_get [of "(0, 3)" ?st "Some ''x''"]
  have a: "elems ?st' = [Slot 4 (Some ''y''), Undefined, Undefined, Slot 0 (Some ''x'')]"
    by (simp add: secondary_insert_def array_set_def is_array_index_def numeral_3_eq_3)
  from t have b: "secondary_get ?st' (0, 3) = Some ''x''"
    by blast
  from t have inside: "length (elems ?st') = max (length (elems ?st)) (snd (0::int, 3::nat) + 1)
      \<and> elems ?st' ! snd (0::int, 3::nat) = Slot (fst (0::int, 3::nat)) (Some ''x'')
      \<and> (\<forall>j<length (elems ?st). j \<noteq> snd (0::int, 3::nat) \<longrightarrow> elems ?st' ! j = elems ?st ! j)
      \<and> (\<forall>j. length (elems ?st) \<le> j \<and> j < snd (0::int, 3::nat) \<longrightarrow> elems ?st' ! j = Undefined)"
    by simp
  then have "\<forall>j<length (elems ?st). j \<noteq> snd (0::int, 3::nat) \<longrightarrow> elems ?st' ! j = elems ?st ! j"
    by blast
  then have c: "elems ?st' ! 0 = [Slot 4 (Some ''y'')] ! 0"
    by simp
  from inside have "\<forall>j. length (elems ?st) \<le> j \<and> j < snd (0::int, 3::nat) \<longrightarrow> elems ?st' ! j = Undefined"
    by blast
  then have d: "elems ?st' ! 2 = Undefined"
    by simp
  have e: "elems (secondary_insert \<lparr>elems = [Null, Slot 4 (Some ''y'')], props = Map.empty\<rparr> (7, 1) (Some ''x'')) ! 1 =
      Slot 7 (Some ''x'')"
    using secondary_insert_get [of "(7, 1)" "\<lparr>elems = [Null, Slot 4 (Some ''y'')], props = Map.empty\<rparr>" "Some ''x''"]
    by simp
  note big = secondary_insert_get [of "(7, 2 ^ 32 - 1)" "\<lparr>elems = [Null], props = Map.empty\<rparr>" "Some ''x''"]
  from big have f: "elems (secondary_insert \<lparr>elems = [Null], props = Map.empty\<rparr> (7, 2 ^ 32 - 1) (Some ''x'')) = [Null]"
    by simp
  from big have g: "secondary_get (secondary_insert \<lparr>elems = [Null], props = Map.empty\<rparr> (7, 2 ^ 32 - 1) (Some ''x''))
      (7, 2 ^ 32 - 1) = Some ''x''"
    by blast
  from a b c d e f g show ?thesis by blast
qed

text \<open>
  The claim as stated fails at the index \<open>2^32 - 1\<close>: on the empty map the backing array
  does not grow, it stays empty and \<open>iter\<close> yields nothing, although \<open>get\<close> finds the
  value.
\<close>

theorem secondary_insert_get_counterexample:
  "elems (secondary_insert \<lparr>elems = [], props = Map.empty\<rparr> (0, 2 ^ 32 - 1) (Some ''x'')) = [] \<and>
   length (elems (secondary_insert \<lparr>elems = [], props = Map.empty\<rparr> (0, 2 ^ 32 - 1) (Some ''x''))) \<noteq>
     max (length ([] :: string cell list)) (2 ^ 32 - 1 + 1) \<and>
   secondary_iter (secondary_insert \<lparr>elems = [], props = Map.empty\<rparr> (0, 2 ^ 32 - 1) (Some ''x'')) = [] \<and>
   secondary_get (secondary_insert \<lparr>elems = [], props = Map.empty\<rparr> (0, 2 ^ 32 - 1) (Some ''x''))
     (0, 2 ^ 32 - 1) = Some ''x''"
  by (simp add: secondary_insert_def array_fill_def array_set_def array_get_def is_array_index_def
      secondary_iter_def secondary_get_def)

text \<open>
  C10 (frame of secondary insert). \<open>insert e w\<close> is observable only at the index of \<open>e\<close>:
  for every other index \<open>j\<close>, also one that has just come within bounds, \<open>get\<close> on any
  entity with index \<open>j\<close> gives what it gave before and \<open>iter\<close> yields the same pairs at
  \<open>j\<close>; \<open>len\<close> stays or goes up by 1.
\<close>

theorem secondary_insert_frame:
  assumes "j \<noteq> snd e"
  shows "secondary_get (secondary_insert st e w) (g, j) = secondary_get st (g, j)
       \<and> filter (\<lambda>p. snd (fst p) = j) (secondary_iter (secondary_insert st e w)) =
           filter (\<lambda>p. snd (fst p) = j) (secondary_iter st)
       \<and> secondary_len st \<le> secondary_len (secondary_insert st e w)
       \<and> secondary_len (secondary_insert st e w) \<le> secondary_len st + 1"
proof -
  have cell: "array_get (secondary_insert st e w) j = array_get st j"
    using assms by (simp add: secondary_insert_eq array_get_array_set)
  have elem: "elem_at (elems (secondary_insert st e w)) j = elem_at (elems st) j"
    using assms by (simp add: secondary_insert_eq elem_at_array_set)
  have "secondary_get (secondary_insert st e w) (g, j) = secondary_get st (g, j)"
    by (simp add: secondary_get_def cell)
  moreover have "filter (\<lambda>p. snd (fst p) = j) (secondary_iter (secondary_insert st e w)) =
      filter (\<lambda>p. snd (fst p) = j) (secondary_iter st)"
    by (simp only: secondary_iter_at elem)
  moreover have "secondary_len (secondary_insert st e w) =
      secondary_len st
        + (if is_array_index (snd e) \<and> \<not> truthy (elem_at (elems st) (snd e)) then 1 else 0)"
    by (simp only: secondary_len_eq secondary_insert_eq truthy_count_array_set)
  ultimately show ?thesis by simp
qed

theorem secondary_insert_frame_witness:
  "secondary_get (secondary_insert \<lparr>elems = [Slot 4 (Some ''y'')], props = Map.empty\<rparr> (0, 3) (Some ''x'')) (4, 0) =
     secondary_get \<lparr>elems = [Slot 4 (Some ''y'')], props = Map.empty\<rparr> (4, 0) \<and>
   secondary_get (secondary_insert \<lparr>elems = [Slot 4 (Some ''y'')], props = Map.empty\<rparr> (0, 3) (Some ''x'')) (4, 0) =
     Some ''y'' \<and>
   secondary_get (secondary_insert \<lparr>elems = [Slot 4 (Some ''y'')], props = Map.empty\<rparr> (0, 3) (Some ''x'')) (0, 2) =
     None \<and>
   secondary_len (secondary_insert \<lparr>elems = [Slot 4 (Some ''y'')], props = Map.empty\<rparr> (0, 3) (Some ''x'')) \<le>
     secondary_len \<lparr>elems = [Slot 4 (Some ''y'')], props = Map.empty\<rparr> + 1"
proof -
  let ?st = "\<lparr>elems = [Slot 4 (Some ''y'')], props = Map.empty\<rparr> :: string secondary_store"
  have "(0::nat) \<noteq> snd (0::int, 3::nat)" by simp
  note t0 = secondary_insert_frame [OF this, of ?st "Some ''x''" 4]
  have "(2::nat) \<noteq> snd (0::int, 3::nat)" by simp
  note t2 = secondary_insert_frame [OF this, of ?st "Some ''x''" 0]
  have a: "secondary_get ?st (4, 0) = Some ''y''"
    by (simp add: secondary_get_def array_get_def elem_at_def is_array_index_def)
  have b: "secondary_get ?st (0, 2) = None"
    by (simp add: secondary_get_def array_get_def elem_at_def is_array_index_def)
  from t0 t2 a b show ?thesis by simp
qed


end
